theory Spec2Isabelle
  imports Complex_Main "HOL-Library.Word"
begin

section \<open>Numeric model\<close>

text \<open>
  The program computes with IEEE double precision numbers and numpy arrays of them.
  The embedding takes them as exact real and complex numbers wherever a property does not
  turn on rounding, so there rounding, overflow and signed zeros are outside the model.
  The loss conversion \<open>gamma2dbmm\<close> is the exception: whether its result is zero is
  decided by the rounding of \<open>exp\<close> near one, and it is modelled in double precision
  below. Where numpy produces a non-finite value (a division by zero, the logarithm of
  zero) the model returns \<open>None\<close> instead of HOL's total value.
\<close>

subsection \<open>Constants of \<open>HFSSMS.__init__\<close>\<close>

definition mu0 :: real where
  "mu0 = 1.25663706212 / 10 ^ 6"

definition ep0 :: real where
  "ep0 = 8.8541878128 / 10 ^ 12"

definition c0 :: real where
  "c0 = 1 / sqrt (mu0 * ep0)"

definition sigma_cu :: real where
  "sigma_cu = 58 * 10 ^ 6"

text \<open>\<open>np.finfo(float).eps\<close>, the spacing of doubles at one.\<close>

definition float_eps :: real where
  "float_eps = 1 / 2 ^ 52"

subsection \<open>The inline conversion functions\<close>

text \<open>
  \<open>mag2db = lambda x: 20*np.log10(abs(x))\<close>. At \<open>x = 0\<close> numpy returns minus infinity.
\<close>

definition mag2db :: "complex \<Rightarrow> real option" where
  "mag2db x = (if cmod x = 0 then None else Some (20 * log 10 (cmod x)))"

text \<open>\<open>db2mag = lambda x: 10**(x/20)\<close>.\<close>

definition db2mag :: "real \<Rightarrow> real" where
  "db2mag x = 10 powr (x / 20)"

text \<open>
  \<open>gamma2ereff = lambda x,f: -(self.c0/2/np.pi/f*x)**2\<close>. The division by \<open>f\<close> is
  the only one by a variable; at \<open>f = 0\<close> the numpy result is not finite.
\<close>

definition gamma2ereff :: "complex \<Rightarrow> real \<Rightarrow> complex option" where
  "gamma2ereff x f =
     (if f = 0 then None else Some (- ((of_real (c0 / 2 / pi / f) * x)\<^sup>2)))"

text \<open>
  \<open>ereff2gamma = lambda x,f: 2*np.pi*f/self.c0*np.sqrt(-(x-1j*np.finfo(float).eps))\<close>,
  with numpy's principal square root.
\<close>

definition ereff2gamma :: "complex \<Rightarrow> real \<Rightarrow> complex" where
  "ereff2gamma x f =
     of_real (2 * pi * f / c0) * csqrt (- (x - \<i> * of_real float_eps))"

subsection \<open>Double precision\<close>

text \<open>
  The nearest integer, ties to the even one.
\<close>

definition rne :: "real \<Rightarrow> int" where
  "rne x =
     (if x - of_int \<lfloor>x\<rfloor> < 1 / 2 then \<lfloor>x\<rfloor>
      else if 1 / 2 < x - of_int \<lfloor>x\<rfloor> then \<lfloor>x\<rfloor> + 1
      else if even \<lfloor>x\<rfloor> then \<lfloor>x\<rfloor> else \<lfloor>x\<rfloor> + 1)"

text \<open>
  The spacing of the doubles around \<open>x\<close>: a double has 53 significant bits, so between
  \<open>2\<^sup>e\<close> and \<open>2\<^sup>e\<^sup>+\<^sup>1\<close> the spacing is \<open>2\<^sup>e\<^sup>-\<^sup>5\<^sup>2\<close>.
\<close>

definition ulp :: "real \<Rightarrow> real" where
  "ulp x = 2 powr (of_int (\<lfloor>log 2 \<bar>x\<bar>\<rfloor> - 52))"

text \<open>
  The double nearest to a real number, ties to even: the result of every IEEE operation
  on its exact value. The exponent range is not bounded, so overflow to infinity and
  underflow are outside the model.
\<close>

definition fl :: "real \<Rightarrow> real" where
  "fl x = (if x = 0 then 0 else of_int (rne (x / ulp x)) * ulp x)"

text \<open>
  \<open>mag2db\<close> on a double: \<open>abs\<close> is exact, \<open>np.log10\<close> and the product with 20 round.
\<close>

definition mag2db_fl :: "real \<Rightarrow> real option" where
  "mag2db_fl x = (if \<bar>x\<bar> = 0 then None else Some (fl (20 * fl (log 10 \<bar>x\<bar>))))"

text \<open>
  \<open>gamma2dbmm = lambda x: self.mag2db(np.exp(x.real*1e-3))\<close>: the literal \<open>1e-3\<close> is the
  double nearest to one thousandth, and the product, \<open>np.exp\<close>, \<open>np.log10\<close> and the
  product with 20 each return the double nearest to their exact result.
\<close>

definition gamma2dbmm :: "complex \<Rightarrow> real option" where
  "gamma2dbmm x = mag2db_fl (fl (exp (fl (Re x * fl 0.001))))"

section \<open>The Landau-Lifshitz permeability model\<close>

text \<open>
  \<open>LLmodel\<close> of \<open>example_microstrip.py\<close> is one numpy expression over the frequency
  array \<open>f\<close>. A frequency array holds real numbers either as doubles or as 64-bit signed
  integers (what \<open>np.arange(1, 151)*10**9\<close> gives), and numpy computes each operator in
  the type of its operands: integer arithmetic stays in \<open>int64\<close> and wraps around, and an
  integer meeting a complex operand is converted first.
\<close>

datatype ndarray = Float64 "real list" | Int64 "64 word list"

text \<open>The conversion of an array that meets a complex operand.\<close>

definition to_complex128 :: "ndarray \<Rightarrow> complex list" where
  "to_complex128 a =
     (case a of
        Float64 xs \<Rightarrow> map of_real xs
      | Int64 ws \<Rightarrow> map (\<lambda>w. of_int (sint w)) ws)"

text \<open>
  \<open>f**2\<close> has one array operand and a Python integer exponent, so the result keeps the
  type of \<open>f\<close>: on an \<open>int64\<close> array the square is taken modulo \<open>2\<^sup>6\<^sup>4\<close>.
\<close>

definition np_pow2 :: "ndarray \<Rightarrow> ndarray" where
  "np_pow2 a =
     (case a of
        Float64 xs \<Rightarrow> Float64 (map (\<lambda>x. x\<^sup>2) xs)
      | Int64 ws \<Rightarrow> Int64 (map (\<lambda>w. w\<^sup>2) ws))"

text \<open>
  The other operators have a complex operand. A scalar against an array broadcasts over the
  array, and two arrays of one length combine element by element (every array below is
  derived from \<open>f\<close> and has its length).
\<close>

definition np_smul :: "complex \<Rightarrow> ndarray \<Rightarrow> complex list" where
  "np_smul c a = map (\<lambda>x. c * x) (to_complex128 a)"

definition np_muls :: "complex list \<Rightarrow> complex \<Rightarrow> complex list" where
  "np_muls xs c = map (\<lambda>x. x * c) xs"

definition np_sadd :: "complex \<Rightarrow> complex list \<Rightarrow> complex list" where
  "np_sadd c xs = map (\<lambda>x. c + x) xs"

definition np_sub :: "complex list \<Rightarrow> ndarray \<Rightarrow> complex list" where
  "np_sub xs a = map2 (\<lambda>x y. x - y) xs (to_complex128 a)"

definition np_cmul :: "complex \<Rightarrow> complex list \<Rightarrow> complex list" where
  "np_cmul c xs = map (\<lambda>x. c * x) xs"

text \<open>
  Array division does not raise: where the divisor is zero numpy stores a non-finite value
  and warns. Such an entry is \<open>None\<close>, and stays \<open>None\<close> under the final addition.
\<close>

definition np_div :: "complex list \<Rightarrow> complex list \<Rightarrow> complex option list" where
  "np_div xs ys = map2 (\<lambda>x y. if y = 0 then None else Some (x / y)) xs ys"

definition np_sadd_opt :: "complex \<Rightarrow> complex option list \<Rightarrow> complex option list" where
  "np_sadd_opt c xs = map (map_option (\<lambda>x. c + x)) xs"

text \<open>The numerator \<open>f0**2 + 1j*f*gamma\<close> and the denominator \<open>f0**2 + 2j*f*gamma - f**2\<close>.\<close>

definition LLmodel_num :: "ndarray \<Rightarrow> real \<Rightarrow> real \<Rightarrow> complex list" where
  "LLmodel_num f f0 gamma =
     np_sadd (of_real (f0\<^sup>2)) (np_muls (np_smul \<i> f) (of_real gamma))"

definition LLmodel_den :: "ndarray \<Rightarrow> real \<Rightarrow> real \<Rightarrow> complex list" where
  "LLmodel_den f f0 gamma =
     np_sub (np_sadd (of_real (f0\<^sup>2)) (np_muls (np_smul (2 * \<i>) f) (of_real gamma)))
       (np_pow2 f)"

text \<open>
  \<open>return murf + (muri - murf)*(f0**2 + 1j*f*gamma)/( f0**2 + 2j*f*gamma - f**2)\<close>:
  the product is formed before the quotient.
\<close>

definition LLmodel :: "ndarray \<Rightarrow> complex \<Rightarrow> complex \<Rightarrow> real \<Rightarrow> real \<Rightarrow> complex option list" where
  "LLmodel f muri murf f0 gamma =
     np_sadd_opt murf
       (np_div (np_cmul (muri - murf) (LLmodel_num f f0 gamma)) (LLmodel_den f f0 gamma))"

section \<open>Layer dictionaries and default filling\<close>

text \<open>
  A conductor layer is a Python dict from key strings to values. A key bound to \<open>None\<close>
  is present in the dict, so the Python \<open>None\<close> is a value of its own.
\<close>

datatype pyval =
    PyNone
  | PyInt int
  | PyFloat real
  | PyComplex complex
  | PyStr string
  | PyArray "complex list"

type_synonym pydict = "string \<rightharpoonup> pyval"

text \<open>
  Dicts are mutable objects that the caller and the callee share, so they live in a store:
  a reference is an address, and a list of layers is a list of references (which may name one
  dict more than once).
\<close>

type_synonym ref = nat

type_synonym heap = "ref \<Rightarrow> pydict"

text \<open>The store in which the dicts \<open>ds\<close> are the objects at addresses \<open>0, 1, \<dots>\<close>.\<close>

definition heap_of :: "pydict list \<Rightarrow> heap" where
  "heap_of ds r = (if r < length ds then ds ! r else Map.empty)"

text \<open>\<open>d.get(key, default)\<close>.\<close>

definition dict_get :: "pydict \<Rightarrow> string \<Rightarrow> pyval \<Rightarrow> pyval" where
  "dict_get d k dflt = (case d k of None \<Rightarrow> dflt | Some v \<Rightarrow> v)"

text \<open>
  The inner loop of \<open>fill_missing_vals\<close> on one dict:
  \<^verbatim>\<open>
  for key in required_keys:
    if key not in material:
      material[key] = default_values.get(key, None)
  \<close>
\<close>

fun fill_keys :: "string list \<Rightarrow> pydict \<Rightarrow> pydict \<Rightarrow> pydict" where
  "fill_keys [] default_values material = material"
| "fill_keys (key # keys) default_values material =
     fill_keys keys default_values
       (case material key of
          None \<Rightarrow> material(key \<mapsto> dict_get default_values key PyNone)
        | Some _ \<Rightarrow> material)"

text \<open>The outer loop \<open>for material in material_properties\<close>, writing each dict back to the store.\<close>

fun fill_loop :: "string list \<Rightarrow> pydict \<Rightarrow> heap \<Rightarrow> ref list \<Rightarrow> heap" where
  "fill_loop required_keys default_values hp [] = hp"
| "fill_loop required_keys default_values hp (r # rs) =
     fill_loop required_keys default_values
       (hp(r := fill_keys required_keys default_values (hp r))) rs"

text \<open>
  \<open>fill_missing_vals\<close> returns its argument \<open>material_properties\<close>, the same list of the
  same objects; the store after the call is the other component of the result.
\<close>

definition fill_missing_vals ::
  "string list \<Rightarrow> pydict \<Rightarrow> heap \<Rightarrow> ref list \<Rightarrow> heap \<times> ref list" where
  "fill_missing_vals required_keys default_values hp material_properties =
     (fill_loop required_keys default_values hp material_properties, material_properties)"

text \<open>The key list and the default table of \<open>run_simulation\<close>.\<close>

definition required_keys :: "string list" where
  "required_keys = [''sigma'', ''mur'', ''er'', ''Rrms'', ''boundary_loc'', ''distribution'']"

definition default_values :: pydict where
  "default_values =
     [''sigma'' \<mapsto> PyFloat 58000000, ''mur'' \<mapsto> PyComplex 1, ''er'' \<mapsto> PyNone,
      ''Rrms'' \<mapsto> PyInt 0, ''boundary_loc'' \<mapsto> PyInt 0, ''distribution'' \<mapsto> PyStr ''norm'']"

section \<open>The constructor of \<open>HFSSMS\<close> in \<open>hfss_ms.py\<close>\<close>

text \<open>
  The frequency and the four dielectric parameters are each a number or a 1-d array.
\<close>

datatype param = Scalar real | Array "real list"

datatype error = ValueError

text \<open>\<open>np.atleast_1d\<close>: a number becomes an array of one element.\<close>

definition atleast_1d :: "param \<Rightarrow> real list" where
  "atleast_1d p = (case p of Scalar c \<Rightarrow> [c] | Array xs \<Rightarrow> xs)"

definition ones_like :: "real list \<Rightarrow> real list" where
  "ones_like xs = replicate (length xs) 1"

text \<open>
  \<open>p * ys\<close> for a number or 1-d array \<open>p\<close> and an array \<open>ys\<close>, under numpy's broadcasting:
  a number and an array of one element stretch to the other operand's length, arrays of one
  length multiply element by element, and any other pair of lengths raises \<open>ValueError\<close>.
\<close>

definition np_mul :: "param \<Rightarrow> real list \<Rightarrow> error + real list" where
  "np_mul p ys =
     (case p of
        Scalar c \<Rightarrow> Inr (map (\<lambda>y. c * y) ys)
      | Array xs \<Rightarrow>
          if length xs = length ys then Inr (map2 (\<lambda>x y. x * y) xs ys)
          else if length xs = 1 then Inr (map (\<lambda>y. hd xs * y) ys)
          else if length ys = 1 then Inr (map (\<lambda>x. x * hd ys) xs)
          else Inl ValueError)"

record hfssms =
  self_f :: "real list"
  self_w :: real
  self_h :: real
  self_t :: real
  self_wgnd :: real
  self_er :: "real list"
  self_etand :: "real list"
  self_mur :: "real list"
  self_mutand :: "real list"
  self_conductor_gnd_top :: "ref list option"
  self_conductor_sig_bottom :: "ref list option"
  self_conductor_sig_side :: "ref list option"
  self_conductor_sig_top :: "ref list option"
  self_use_pec :: bool

text \<open>
  \<open>__init__\<close>: the four products \<open>er*np.ones_like(self.f)\<close>, \<open>\<dots>\<close> are evaluated in the
  source's order, and the first one that raises ends the construction.
\<close>

definition HFSSMS_init ::
  "param \<Rightarrow> real \<Rightarrow> real \<Rightarrow> real \<Rightarrow> real \<Rightarrow> param \<Rightarrow> param \<Rightarrow> param \<Rightarrow> param \<Rightarrow>
   ref list option \<Rightarrow> ref list option \<Rightarrow> ref list option \<Rightarrow> ref list option \<Rightarrow> bool \<Rightarrow>
   error + hfssms" where
  "HFSSMS_init f w h t wgnd er etand mur mutand
     conductor_gnd_top conductor_sig_bottom conductor_sig_side conductor_sig_top use_pec =
     (let fa = atleast_1d f in
      case np_mul er (ones_like fa) of Inl e \<Rightarrow> Inl e | Inr er' \<Rightarrow>
      case np_mul etand (ones_like fa) of Inl e \<Rightarrow> Inl e | Inr etand' \<Rightarrow>
      case np_mul mur (ones_like fa) of Inl e \<Rightarrow> Inl e | Inr mur' \<Rightarrow>
      case np_mul mutand (ones_like fa) of Inl e \<Rightarrow> Inl e | Inr mutand' \<Rightarrow>
      Inr \<lparr>self_f = fa, self_w = w, self_h = h, self_t = t, self_wgnd = wgnd,
           self_er = er', self_etand = etand', self_mur = mur', self_mutand = mutand',
           self_conductor_gnd_top = conductor_gnd_top,
           self_conductor_sig_bottom = conductor_sig_bottom,
           self_conductor_sig_side = conductor_sig_side,
           self_conductor_sig_top = conductor_sig_top,
           self_use_pec = use_pec\<rparr>)"

section \<open>Properties of the conversion functions\<close>

lemma c0_pos: "0 < c0"
  by (simp add: c0_def mu0_def ep0_def)

lemma float_eps_pos: "0 < float_eps"
  by (simp add: float_eps_def)

text \<open>
  C10: converting a nonzero real or complex number to decibels and back gives its absolute
  value; for a positive real number that is the number itself.
\<close>

theorem db2mag_mag2db:
  "(x \<noteq> 0 \<longrightarrow> map_option db2mag (mag2db x) = Some (cmod x)) \<and>
   (0 < r \<longrightarrow> map_option db2mag (mag2db (of_real r)) = Some r)"
  by (simp add: mag2db_def db2mag_def)

theorem db2mag_mag2db_witness:
  "(- 2 :: complex) \<noteq> 0 \<and> map_option db2mag (mag2db (- 2)) = Some 2 \<and>
   (0 :: real) < 3 \<and> map_option db2mag (mag2db (of_real 3)) = Some 3"
  using db2mag_mag2db [of "- 2" 3] by simp

lemma k_pos: "0 < f \<Longrightarrow> 0 < 2 * pi * f / c0"
  using c0_pos by simp

lemma Re_of_real_times: "Re (of_real r * z) = r * Re z"
  by simp

lemma Im_of_real_times: "Im (of_real r * z) = r * Im z"
  by simp

text \<open>
  C6: for every effective permittivity, real or complex, and every frequency \<open>f > 0\<close>,
  the propagation constant returned by \<open>ereff2gamma\<close> has a non-negative real part: the
  principal square root is taken and the factor \<open>2\<pi>f/c0\<close> is positive.
\<close>

theorem ereff2gamma_Re_nonneg: "0 < f \<Longrightarrow> 0 \<le> Re (ereff2gamma x f)"
proof -
  assume "0 < f"
  then have "0 \<le> 2 * pi * f / c0" using k_pos [of f] by simp
  moreover have "0 \<le> Re (csqrt (- (x - \<i> * of_real float_eps)))" by (rule Re_csqrt)
  ultimately have "0 \<le> (2 * pi * f / c0) * Re (csqrt (- (x - \<i> * of_real float_eps)))"
    by (rule mult_nonneg_nonneg)
  then show ?thesis
    unfolding ereff2gamma_def Re_of_real_times .
qed

theorem ereff2gamma_Re_nonneg_witness: "(0::real) < 1 \<and> 0 \<le> Re (ereff2gamma 3 1)"
  using ereff2gamma_Re_nonneg [of 1 3] by simp

text \<open>
  Two square roots whose squares differ by \<open>\<i>e\<close> and that lie within a right angle of
  each other are close: the distance times the modulus is at most \<open>e\<close>.
\<close>

lemma sqrt_shift_bound:
  assumes sq: "w\<^sup>2 = z\<^sup>2 + \<i> * of_real e" and e: "0 \<le> e"
    and ang: "0 \<le> Re (w * cnj z)"
  shows "cmod (w - z) * cmod z \<le> e"
proof -
  have "(w - z) * (w + z) = w\<^sup>2 - z\<^sup>2" by (simp add: algebra_simps power2_eq_square)
  also have "\<dots> = \<i> * of_real e" using sq by simp
  finally have "cmod ((w - z) * (w + z)) = cmod (\<i> * of_real e)" by simp
  then have prod: "cmod (w - z) * cmod (w + z) = e"
    using e by (simp add: norm_mult)
  have "(cmod (w + z))\<^sup>2 = (cmod w)\<^sup>2 + (cmod z)\<^sup>2 + 2 * Re (w * cnj z)"
    unfolding cmod_power2 by (simp add: algebra_simps power2_eq_square)
  then have "(cmod z)\<^sup>2 \<le> (cmod (w + z))\<^sup>2" using ang by simp
  then have "cmod z \<le> cmod (w + z)" by (simp add: power2_le_iff_abs_le)
  then have "cmod (w - z) * cmod z \<le> cmod (w - z) * cmod (w + z)"
    by (rule mult_left_mono) simp
  then show ?thesis using prod by simp
qed

lemma Im_csqrt_sign:
  "0 \<le> Im u \<Longrightarrow> 0 \<le> Im (csqrt u)"
  "Im u < 0 \<Longrightarrow> Im (csqrt u) \<le> 0"
  by (simp_all add: sgn_if mult_nonneg_nonneg complex_Re_le_cmod)

lemma gamma2ereff_Some:
  "f \<noteq> 0 \<Longrightarrow> gamma2ereff g f = Some (- ((of_real (c0 / 2 / pi / f) * g)\<^sup>2))"
  by (simp add: gamma2ereff_def)

lemma roundtrip_shape:
  fixes f :: real and g :: complex
  assumes "0 < f"
  defines "k \<equiv> 2 * pi * f / c0"
  defines "z \<equiv> of_real (c0 / 2 / pi / f) * g"
  shows "ereff2gamma (- (z\<^sup>2)) f = of_real k * csqrt (z\<^sup>2 + \<i> * of_real float_eps)"
    and "g = of_real k * z"
proof -
  show "ereff2gamma (- (z\<^sup>2)) f = of_real k * csqrt (z\<^sup>2 + \<i> * of_real float_eps)"
    unfolding ereff2gamma_def k_def by (simp del: csqrt.simps add: add.commute)
  have "k * (c0 / 2 / pi / f) = 1"
    unfolding k_def using assms(1) c0_pos by simp
  then have "of_real k * of_real (c0 / 2 / pi / f) = (1::complex)"
    by (metis of_real_mult of_real_1)
  then show "g = of_real k * z"
    unfolding z_def by (simp add: mult.assoc [symmetric])
qed

text \<open>
  C1, as amended: let \<open>f > 0\<close> and let \<open>\<gamma>\<close> have non-negative real part. If moreover
  \<open>Im \<gamma> \<ge> 0\<close> or \<open>2 Re \<gamma> |Im \<gamma>| > eps (2\<pi>f/c0)\<^sup>2\<close>, and
  \<open>|\<gamma>|\<^sup>2 \<ge> 1e9 eps (2\<pi>f/c0)\<^sup>2\<close> (the effective permittivity has modulus at least
  \<open>1e9 eps\<close>), then \<open>ereff2gamma (gamma2ereff \<gamma> f) f\<close> is defined and differs from
  \<open>\<gamma>\<close> by at most \<open>1e-9 |\<gamma>|\<close>.
\<close>

theorem roundtrip_amended:
  assumes f: "0 < f" and re: "0 \<le> Re g"
    and quad: "0 \<le> Im g \<or> float_eps * (2 * pi * f / c0)\<^sup>2 < 2 * Re g * (- Im g)"
    and big: "10 ^ 9 * float_eps * (2 * pi * f / c0)\<^sup>2 \<le> (cmod g)\<^sup>2"
  shows "\<exists>e. gamma2ereff g f = Some e \<and> cmod (ereff2gamma e f - g) \<le> cmod g / 10 ^ 9"
proof -
  define k where "k = 2 * pi * f / c0"
  define z where "z = of_real (c0 / 2 / pi / f) * g"
  define w where "w = csqrt (z\<^sup>2 + \<i> * of_real float_eps)"
  have kpos: "0 < k" unfolding k_def using k_pos [OF f] .
  have out: "ereff2gamma (- (z\<^sup>2)) f = of_real k * w"
    and g: "g = of_real k * z"
    unfolding w_def k_def z_def using roundtrip_shape [OF f] by blast+
  have Rez: "Re g = k * Re z" and Imz: "Im g = k * Im z"
    by (subst g, simp)+
  have rez: "0 \<le> Re z" using re kpos unfolding Rez by (simp add: zero_le_mult_iff)
  have cg: "cmod g = k * cmod z"
    by (subst g) (use kpos in \<open>simp add: norm_mult\<close>)
  have wsq: "w\<^sup>2 = z\<^sup>2 + \<i> * of_real float_eps"
    unfolding w_def by (rule power2_csqrt)
  have Imarg: "Im (z\<^sup>2 + \<i> * of_real float_eps) = 2 * Re z * Im z + float_eps"
    by (simp add: power2_eq_square)
  have rew: "0 \<le> Re w" unfolding w_def by (rule Re_csqrt)
  have improd: "0 \<le> Im w * Im z"
    using quad
  proof
    assume "0 \<le> Im g"
    then have iz: "0 \<le> Im z" using kpos unfolding Imz by (simp add: zero_le_mult_iff)
    then have "0 \<le> Im (z\<^sup>2 + \<i> * of_real float_eps)"
      unfolding Imarg using rez float_eps_pos by (simp add: mult_nonneg_nonneg)
    then have "0 \<le> Im w" unfolding w_def by (rule Im_csqrt_sign)
    then show ?thesis using iz by (rule mult_nonneg_nonneg)
  next
    assume a: "float_eps * (2 * pi * f / c0)\<^sup>2 < 2 * Re g * (- Im g)"
    have "float_eps * k\<^sup>2 < (2 * Re z * (- Im z)) * k\<^sup>2"
      using a unfolding k_def [symmetric] Rez Imz by (simp add: power2_eq_square algebra_simps)
    then have lt: "float_eps < 2 * Re z * (- Im z)"
      by (rule mult_right_less_imp_less) simp
    then have "Im (z\<^sup>2 + \<i> * of_real float_eps) < 0"
      unfolding Imarg by simp
    then have iw: "Im w \<le> 0" unfolding w_def by (rule Im_csqrt_sign)
    have "0 < 2 * Re z * (- Im z)" using lt float_eps_pos by linarith
    then have "Im z * Re z < 0" by (simp add: algebra_simps)
    then have "Im z \<le> 0" using rez by (auto simp: mult_less_0_iff)
    with iw show ?thesis by (rule mult_nonpos_nonpos)
  qed
  have ang: "0 \<le> Re (w * cnj z)"
    using improd mult_nonneg_nonneg [OF rew rez] by simp
  have bound: "cmod (w - z) * cmod z \<le> float_eps"
    using wsq float_eps_pos ang by (intro sqrt_shift_bound) simp_all
  have "10 ^ 9 * float_eps * k\<^sup>2 \<le> (cmod z)\<^sup>2 * k\<^sup>2"
    using big unfolding k_def [symmetric] cg by (simp add: power2_eq_square algebra_simps)
  then have zbig: "10 ^ 9 * float_eps \<le> (cmod z)\<^sup>2"
    by (rule mult_right_le_imp_le) (use kpos in simp)
  then have zpos: "0 < cmod z"
    using float_eps_pos by (cases "z = 0") simp_all
  have "cmod (w - z) * cmod z \<le> (cmod z / 10 ^ 9) * cmod z"
    using bound zbig by (simp add: power2_eq_square)
  then have small: "cmod (w - z) \<le> cmod z / 10 ^ 9"
    using zpos by (simp only: mult_le_cancel_right_pos)
  have "ereff2gamma (- (z\<^sup>2)) f - g = of_real k * (w - z)"
    unfolding out by (subst g) (simp add: algebra_simps)
  then have "cmod (ereff2gamma (- (z\<^sup>2)) f - g) = k * cmod (w - z)"
    using kpos by (simp add: norm_mult)
  also have "\<dots> \<le> k * (cmod z / 10 ^ 9)"
    using small kpos by simp
  also have "\<dots> = cmod g / 10 ^ 9" unfolding cg by simp
  finally have "cmod (ereff2gamma (- (z\<^sup>2)) f - g) \<le> cmod g / 10 ^ 9" .
  moreover have "gamma2ereff g f = Some (- (z\<^sup>2))"
    unfolding z_def using f by (simp add: gamma2ereff_Some)
  ultimately show ?thesis by blast
qed

theorem roundtrip_amended_witness:
  "\<exists>e. gamma2ereff (Complex 3 4) (c0 / (2 * pi)) = Some e \<and>
     cmod (ereff2gamma e (c0 / (2 * pi)) - Complex 3 4) \<le> cmod (Complex 3 4) / 10 ^ 9"
proof (rule roundtrip_amended)
  show "0 < c0 / (2 * pi)" using c0_pos by simp
  show "0 \<le> Re (Complex 3 4)" by simp
  show "0 \<le> Im (Complex 3 4) \<or>
    float_eps * (2 * pi * (c0 / (2 * pi)) / c0)\<^sup>2 < 2 * Re (Complex 3 4) * (- Im (Complex 3 4))"
    by simp
  have "2 * pi * (c0 / (2 * pi)) / c0 = 1" using c0_pos by simp
  then show "10 ^ 9 * float_eps * (2 * pi * (c0 / (2 * pi)) / c0)\<^sup>2 \<le> (cmod (Complex 3 4))\<^sup>2"
    unfolding cmod_power2 by (simp add: float_eps_def)
qed

text \<open>
  C1 as stated fails. At \<open>\<gamma> = -\<i>\<close> (real part zero) and \<open>f = 1\<close> the round trip
  returns a value with non-negative imaginary part, at distance at least one from \<open>\<gamma>\<close>;
  at \<open>\<gamma> = 0\<close> it returns a nonzero value, which no relative tolerance admits.
\<close>

theorem roundtrip_counterexample:
  "0 \<le> Re (- \<i>) \<and> (0::real) < 1 \<and>
   gamma2ereff (- \<i>) 1 = Some (of_real ((c0 / 2 / pi)\<^sup>2)) \<and>
   \<not> cmod (ereff2gamma (of_real ((c0 / 2 / pi)\<^sup>2)) 1 - (- \<i>)) \<le> cmod (- \<i>) / 10 ^ 9 \<and>
   0 \<le> Re 0 \<and> gamma2ereff 0 1 = Some 0 \<and>
   \<not> cmod (ereff2gamma 0 1 - 0) \<le> cmod 0 / 10 ^ 9"
proof -
  define a where "a = (c0 / 2 / pi)\<^sup>2"
  have sq: "(of_real r * (- \<i>))\<^sup>2 = - (of_real (r\<^sup>2))" for r :: real
    by (simp add: power_mult_distrib)
  have e: "gamma2ereff (- \<i>) 1 = Some (of_real a)"
    unfolding a_def gamma2ereff_def div_by_1 sq by simp
  have "0 \<le> Im (- (of_real a - \<i> * of_real float_eps))"
    using float_eps_pos by simp
  then have "0 \<le> Im (csqrt (- (of_real a - \<i> * of_real float_eps)))"
    by (rule Im_csqrt_sign)
  moreover have "0 \<le> 2 * pi * 1 / c0" using c0_pos by simp
  ultimately have "0 \<le> (2 * pi * 1 / c0) * Im (csqrt (- (of_real a - \<i> * of_real float_eps)))"
    by (rule mult_nonneg_nonneg [rotated])
  then have "0 \<le> Im (ereff2gamma (of_real a) 1)"
    unfolding ereff2gamma_def Im_of_real_times .
  then have "1 \<le> Im (ereff2gamma (of_real a) 1 - (- \<i>))" by simp
  also have "\<dots> \<le> cmod (ereff2gamma (of_real a) 1 - (- \<i>))"
    by (rule order_trans [OF abs_ge_self abs_Im_le_cmod])
  finally have far: "\<not> cmod (ereff2gamma (of_real a) 1 - (- \<i>)) \<le> cmod (- \<i>) / 10 ^ 9"
    by simp
  have z: "gamma2ereff 0 1 = Some 0"
    by (simp add: gamma2ereff_def)
  have "ereff2gamma 0 1 \<noteq> 0"
    unfolding ereff2gamma_def using c0_pos float_eps_pos by (simp del: csqrt.simps)
  then have nz: "\<not> cmod (ereff2gamma 0 1 - 0) \<le> cmod 0 / 10 ^ 9"
    by simp
  show ?thesis using e far z nz unfolding a_def by simp
qed

section \<open>Properties of the loss conversion in double precision\<close>

lemma rne_bounds: "\<lfloor>x\<rfloor> \<le> rne x" "rne x \<le> \<lfloor>x\<rfloor> + 1"
  by (simp_all add: rne_def)

lemma rne_low: "x - of_int \<lfloor>x\<rfloor> < 1 / 2 \<Longrightarrow> rne x = \<lfloor>x\<rfloor>"
  by (simp add: rne_def)

lemma ulp_pos: "0 < ulp x"
  by (simp add: ulp_def)

text \<open>A positive number lies at least \<open>2\<^sup>5\<^sup>2\<close> spacings from zero, and so does its double.\<close>

lemma ulp_scaled_eq:
  assumes "0 < x"
  shows "2 ^ 52 * ulp x = 2 powr (of_int \<lfloor>log 2 x\<rfloor>)"
proof -
  have p52: "(2::real) powr 52 = 2 ^ 52"
    by (simp only: powr_numeral zero_le_numeral)
  have ax: "\<bar>x\<bar> = x" using assms by simp
  have "2 ^ 52 * ulp x = 2 powr 52 * 2 powr (of_int (\<lfloor>log 2 x\<rfloor> - 52))"
    unfolding ulp_def ax p52 ..
  also have "\<dots> = 2 powr (52 + of_int (\<lfloor>log 2 x\<rfloor> - 52))"
    by (simp only: powr_add)
  also have "\<dots> = 2 powr (of_int \<lfloor>log 2 x\<rfloor>)"
    by simp
  finally show ?thesis .
qed

lemma ulp_scaled:
  assumes "0 < x"
  shows "2 ^ 52 * ulp x \<le> x"
proof -
  have "2 powr (of_int \<lfloor>log 2 x\<rfloor>) \<le> 2 powr (log 2 x)"
    by (rule powr_mono) simp_all
  also have "\<dots> = x" using assms by simp
  finally show ?thesis unfolding ulp_scaled_eq [OF assms] .
qed

lemma fl_lower:
  assumes "0 < x"
  shows "2 ^ 52 * ulp x \<le> fl x"
proof -
  have "2 ^ 52 \<le> x / ulp x"
    using ulp_scaled [OF assms] ulp_pos [of x] by (simp add: pos_le_divide_eq)
  then have "(2 ^ 52 :: int) \<le> \<lfloor>x / ulp x\<rfloor>"
    by (simp add: le_floor_iff)
  also have "\<dots> \<le> rne (x / ulp x)" by (rule rne_bounds)
  finally have "(2 ^ 52 :: real) \<le> of_int (rne (x / ulp x))"
    by (metis of_int_le_iff of_int_numeral of_int_power)
  then have "2 ^ 52 * ulp x \<le> of_int (rne (x / ulp x)) * ulp x"
    using ulp_pos [of x] by simp
  then show ?thesis using assms by (simp add: fl_def)
qed

lemma fl_nonneg: "0 \<le> x \<Longrightarrow> 0 \<le> fl x"
proof (cases "x = 0")
  case True
  then show ?thesis by (simp add: fl_def)
next
  case False
  assume "0 \<le> x"
  with False have "0 < x" by simp
  from fl_lower [OF this] ulp_pos [of x] show ?thesis
    by (smt (verit) mult_pos_pos zero_less_numeral zero_less_power)
qed

lemma fl_ge_one:
  assumes "1 \<le> x"
  shows "1 \<le> fl x"
proof -
  have x: "0 < x" using assms by simp
  have "0 \<le> log 2 x" using assms by simp
  then have "(0::real) \<le> of_int \<lfloor>log 2 x\<rfloor>" by simp
  then have "(2::real) powr 0 \<le> 2 powr (of_int \<lfloor>log 2 x\<rfloor>)"
    by (intro powr_mono) simp_all
  then have "1 \<le> 2 ^ 52 * ulp x"
    unfolding ulp_scaled_eq [OF x] by simp
  also have "\<dots> \<le> fl x" by (rule fl_lower [OF x])
  finally show ?thesis .
qed

lemma fl_upper:
  assumes "0 < x"
  shows "fl x \<le> 2 * x"
proof -
  define y where "y = x / ulp x"
  have xy: "x = y * ulp x" unfolding y_def using ulp_pos [of x] by simp
  have "2 ^ 52 \<le> y"
    unfolding y_def using ulp_scaled [OF assms] ulp_pos [of x] by (simp add: pos_le_divide_eq)
  then have y1: "1 \<le> y" by simp
  have "real_of_int (rne y) \<le> real_of_int (\<lfloor>y\<rfloor> + 1)"
    using rne_bounds(2) [of y] by (simp only: of_int_le_iff)
  also have "\<dots> \<le> y + 1" by simp
  also have "\<dots> \<le> 2 * y" using y1 by simp
  finally have "real_of_int (rne y) * ulp x \<le> (2 * y) * ulp x"
    using ulp_pos [of x] by (simp only: mult_le_cancel_right_pos)
  also have "\<dots> = 2 * x" using xy by simp
  finally show ?thesis using assms unfolding y_def by (simp add: fl_def)
qed

text \<open>Every number from one up to a quarter spacing above one rounds to one.\<close>

lemma fl_near_one:
  assumes "1 \<le> x" and "x < 1 + 1 / 2 ^ 53"
  shows "fl x = 1"
proof -
  have x0: "x \<noteq> 0" using assms(1) by simp
  have "x < 2" using assms(2) by (rule less_trans) simp
  then have "log 2 x < 1" using assms(1) by (simp add: log_less_iff)
  moreover have "0 \<le> log 2 x" using assms(1) by simp
  ultimately have fl0: "\<lfloor>log 2 x\<rfloor> = 0" by (simp add: floor_eq_iff)
  have ax: "\<bar>x\<bar> = x" using assms(1) by simp
  have p52: "(2::real) powr 52 = 2 ^ 52"
    by (simp only: powr_numeral zero_le_numeral)
  have "ulp x = 2 powr (- 52)"
    unfolding ulp_def ax fl0 by simp
  also have "\<dots> = 1 / 2 powr 52"
    by (rule powr_minus_divide)
  finally have u: "ulp x = 1 / 2 ^ 52"
    unfolding p52 .
  have lo: "2 ^ 52 \<le> x * 2 ^ 52" using assms(1) by simp
  have hi: "x * 2 ^ 52 < 2 ^ 52 + 1 / 2" using assms(2) by (simp add: field_simps)
  have fy: "\<lfloor>x * 2 ^ 52\<rfloor> = 2 ^ 52"
    using lo hi by (simp add: floor_eq_iff)
  have "x * 2 ^ 52 - of_int \<lfloor>x * 2 ^ 52\<rfloor> < 1 / 2"
    unfolding fy using hi by simp
  then have "rne (x * 2 ^ 52) = 2 ^ 52"
    using fy by (simp only: rne_low)
  then show ?thesis
    using x0 by (simp add: fl_def u)
qed

lemma fl_0: "fl 0 = 0"
  by (simp add: fl_def)

lemma fl_1: "fl 1 = 1"
  by (rule fl_near_one) simp_all

lemma fl_millis_nonneg: "0 \<le> fl 0.001"
  by (rule fl_nonneg) simp

lemma fl_exp_ge_one: "0 \<le> t \<Longrightarrow> 1 \<le> fl (exp t)"
  by (rule fl_ge_one) simp

lemma fl_exp_pos: "0 < fl (exp t)"
proof -
  have "0 < 2 ^ 52 * ulp (exp t)" using ulp_pos [of "exp t"] by simp
  also have "\<dots> \<le> fl (exp t)" by (rule fl_lower) simp
  finally show ?thesis .
qed

lemma gamma2dbmm_unfold:
  "gamma2dbmm g = Some (fl (20 * fl (log 10 (fl (exp (fl (Re g * fl 0.001)))))))"
  using fl_exp_pos [of "fl (Re g * fl 0.001)"]
  by (simp add: gamma2dbmm_def mag2db_fl_def)

text \<open>
  C7, as amended: for every complex \<open>\<gamma>\<close>, \<open>gamma2dbmm\<close> returns
  \<open>20 log10 (exp (Re \<gamma> \<cdot> 1e-3))\<close> as evaluated in double precision, each operation
  rounded to the nearest double; the value is non-negative whenever \<open>Re \<gamma> \<ge> 0\<close> and is
  zero when \<open>Re \<gamma> = 0\<close>.
\<close>

theorem gamma2dbmm_sign:
  "gamma2dbmm g = Some (fl (20 * fl (log 10 (fl (exp (fl (Re g * fl 0.001))))))) \<and>
   (0 \<le> Re g \<longrightarrow> (\<exists>d\<ge>0. gamma2dbmm g = Some d)) \<and>
   (Re g = 0 \<longrightarrow> gamma2dbmm g = Some 0)"
proof -
  have nonneg: "0 \<le> fl (20 * fl (log 10 (fl (exp (fl (Re g * fl 0.001))))))" if "0 \<le> Re g"
  proof -
    have "0 \<le> Re g * fl 0.001" using that fl_millis_nonneg by (rule mult_nonneg_nonneg)
    then have "0 \<le> fl (Re g * fl 0.001)" by (rule fl_nonneg)
    then have "1 \<le> fl (exp (fl (Re g * fl 0.001)))" by (rule fl_exp_ge_one)
    then have "0 \<le> log 10 (fl (exp (fl (Re g * fl 0.001))))" by simp
    then have "0 \<le> fl (log 10 (fl (exp (fl (Re g * fl 0.001)))))" by (rule fl_nonneg)
    then have "0 \<le> 20 * fl (log 10 (fl (exp (fl (Re g * fl 0.001)))))" by simp
    then show ?thesis by (rule fl_nonneg)
  qed
  have zero: "fl (20 * fl (log 10 (fl (exp (fl (Re g * fl 0.001)))))) = 0" if "Re g = 0"
    using that by (simp add: fl_0 fl_1)
  show ?thesis
    unfolding gamma2dbmm_unfold using nonneg zero by simp
qed

theorem gamma2dbmm_sign_witness:
  "0 \<le> Re (Complex 2 5) \<and> (\<exists>d\<ge>0. gamma2dbmm (Complex 2 5) = Some d) \<and>
   Re (Complex 0 3) = 0 \<and> gamma2dbmm (Complex 0 3) = Some 0"
proof -
  have r: "0 \<le> Re (Complex 2 5)" and z: "Re (Complex 0 3) = 0"
    by simp_all
  from r gamma2dbmm_sign [of "Complex 2 5"]
  have a: "\<exists>d\<ge>0. gamma2dbmm (Complex 2 5) = Some d" by blast
  from z gamma2dbmm_sign [of "Complex 0 3"]
  have b: "gamma2dbmm (Complex 0 3) = Some 0" by blast
  from r a z b show ?thesis by blast
qed

text \<open>
  C7 as stated fails in the direction "zero only when \<open>Re \<gamma> = 0\<close>": at
  \<open>Re \<gamma> = 2\<^sup>-\<^sup>4\<^sup>7\<close> the argument of \<open>exp\<close> is below \<open>2\<^sup>-\<^sup>5\<^sup>4\<close>, the exponential rounds to
  one, and the loss returned is exactly zero.
\<close>

theorem gamma2dbmm_zero_counterexample:
  "Re (Complex (1 / 2 ^ 47) 0) \<noteq> 0 \<and> gamma2dbmm (Complex (1 / 2 ^ 47) 0) = Some 0"
proof -
  define t where "t = fl (1 / 2 ^ 47 * fl 0.001)"
  have m: "fl 0.001 \<le> 2 * 0.001" by (rule fl_upper) simp
  have p0: "0 \<le> 1 / 2 ^ 47 * fl 0.001" using fl_millis_nonneg by simp
  have t0: "0 \<le> t" unfolding t_def using p0 by (rule fl_nonneg)
  have "t \<le> 2 * (1 / 2 ^ 47 * fl 0.001)"
  proof (cases "1 / 2 ^ 47 * fl 0.001 = 0")
    case True
    then show ?thesis unfolding t_def by (simp add: fl_0)
  next
    case False
    with p0 have "0 < 1 / 2 ^ 47 * fl 0.001" by simp
    then show ?thesis unfolding t_def by (rule fl_upper)
  qed
  also have "\<dots> \<le> 2 * (1 / 2 ^ 47 * (2 * 0.001))" using m by simp
  also have "\<dots> < 1 / 2 ^ 54" by simp
  finally have t1: "t < 1 / 2 ^ 54" .
  have "t \<le> 1" using t1 by (simp add: less_imp_le order_trans [where y = "1 / 2 ^ 54"])
  then have "exp t \<le> 1 + t + t\<^sup>2" using t0 by (intro exp_bound) simp_all
  also have "t\<^sup>2 \<le> t" using t0 \<open>t \<le> 1\<close> by (simp add: power2_eq_square mult_left_le)
  finally have "exp t \<le> 1 + 2 * t" by simp
  also have "\<dots> < 1 + 1 / 2 ^ 53" using t1 by simp
  finally have "exp t < 1 + 1 / 2 ^ 53" .
  moreover have "1 \<le> exp t" using t0 by simp
  ultimately have "fl (exp t) = 1" by (intro fl_near_one)
  then have "gamma2dbmm (Complex (1 / 2 ^ 47) 0) = Some 0"
    unfolding gamma2dbmm_unfold t_def [symmetric] complex.sel
    by (simp add: t_def [symmetric] fl_0)
  then show ?thesis by simp
qed

section \<open>Properties of the permeability model\<close>

lemma map2_map_same: "map2 g (map h1 xs) (map h2 xs) = map (\<lambda>x. g (h1 x) (h2 x)) xs"
  by (induction xs) simp_all

lemma LLmodel_num_Float64:
  "LLmodel_num (Float64 xs) f0 gamma =
     map (\<lambda>x. of_real (f0\<^sup>2) + \<i> * of_real x * of_real gamma) xs"
  by (simp add: LLmodel_num_def np_sadd_def np_muls_def np_smul_def to_complex128_def comp_def)

lemma LLmodel_num_Int64:
  "LLmodel_num (Int64 ws) f0 gamma =
     map (\<lambda>w. of_real (f0\<^sup>2) + \<i> * of_int (sint w) * of_real gamma) ws"
  by (simp add: LLmodel_num_def np_sadd_def np_muls_def np_smul_def to_complex128_def comp_def)

lemma LLmodel_den_Float64:
  "LLmodel_den (Float64 xs) f0 gamma =
     map (\<lambda>x. of_real (f0\<^sup>2) + 2 * \<i> * of_real x * of_real gamma - (of_real x)\<^sup>2) xs"
  unfolding LLmodel_den_def np_sub_def np_sadd_def np_muls_def np_smul_def np_pow2_def
    to_complex128_def
  by (simp add: map2_map_same comp_def)

lemma LLmodel_den_Int64:
  "LLmodel_den (Int64 ws) f0 gamma =
     map (\<lambda>w. of_real (f0\<^sup>2) + 2 * \<i> * of_int (sint w) * of_real gamma - of_int (sint (w\<^sup>2))) ws"
  unfolding LLmodel_den_def np_sub_def np_sadd_def np_muls_def np_smul_def np_pow2_def
    to_complex128_def
  by (simp add: map2_map_same comp_def)

lemma LLmodel_maps:
  "LLmodel f muri murf f0 gamma =
     map2 (\<lambda>n d. if d = 0 then None else Some (murf + (muri - murf) * n / d))
       (LLmodel_num f f0 gamma) (LLmodel_den f f0 gamma)"
  unfolding LLmodel_def np_sadd_opt_def np_div_def np_cmul_def
  by (simp add: zip_map1 map_zip_map split_def comp_def cong: if_cong)

text \<open>
  The denominator \<open>f0\<^sup>2 + 2j x gamma - q\<close> can only vanish where \<open>x = 0\<close>; there the
  square \<open>q\<close> is zero, wrapped or not, and \<open>f0\<^sup>2\<close> remains.
\<close>

lemma LL_den_nonzero:
  assumes "0 < f0" and "0 < gamma" and "x = 0 \<longrightarrow> q = 0"
  shows "of_real (f0\<^sup>2) + 2 * \<i> * of_real x * of_real gamma - of_real q \<noteq> (0::complex)"
proof
  assume z: "of_real (f0\<^sup>2) + 2 * \<i> * of_real x * of_real gamma - of_real q = (0::complex)"
  have "Im (of_real (f0\<^sup>2) + 2 * \<i> * of_real x * of_real gamma - of_real q) = 2 * x * gamma"
    by simp
  with z have "2 * x * gamma = 0" by simp
  with assms(2) have x: "x = 0" by simp
  with assms(3) have q: "q = 0" by simp
  have "Re (of_real (f0\<^sup>2) + 2 * \<i> * of_real x * of_real gamma - of_real q) = f0\<^sup>2 - q"
    by simp
  with z q have "f0\<^sup>2 = 0" by simp
  with assms(1) show False by simp
qed

lemma LL_den_nonzero_Float64:
  assumes "0 < f0" and "0 < gamma"
  shows "of_real (f0\<^sup>2) + 2 * \<i> * of_real x * of_real gamma - (of_real x)\<^sup>2 \<noteq> (0::complex)"
  using LL_den_nonzero [OF assms, of x "x\<^sup>2"] by simp

lemma LL_den_nonzero_Int64:
  fixes w :: "64 word"
  assumes "0 < f0" and "0 < gamma"
  shows "of_real (f0\<^sup>2) + 2 * \<i> * of_int (sint w) * of_real gamma - of_int (sint (w\<^sup>2))
     \<noteq> (0::complex)"
proof -
  have h: "real_of_int (sint w) = 0 \<longrightarrow> real_of_int (sint (w\<^sup>2)) = 0"
    by (auto simp: signed_eq_0_iff)
  have e1: "(of_int (sint w) :: complex) = of_real (real_of_int (sint w))"
    and e2: "(of_int (sint (w\<^sup>2)) :: complex) = of_real (real_of_int (sint (w\<^sup>2)))"
    by (simp_all only: of_real_of_int_eq)
  show ?thesis
    unfolding e1 e2 by (rule LL_den_nonzero [OF assms h])
qed

lemma LLmodel_den_nonzero:
  assumes "0 < f0" and "0 < gamma"
  shows "0 \<notin> set (LLmodel_den f f0 gamma)"
proof (cases f)
  case (Float64 xs)
  show ?thesis
    unfolding Float64 LLmodel_den_Float64 using LL_den_nonzero_Float64 [OF assms] by auto
next
  case (Int64 ws)
  show ?thesis
    unfolding Int64 LLmodel_den_Int64 using LL_den_nonzero_Int64 [OF assms] by auto
qed

lemma map2_no_None:
  "0 \<notin> set ds \<Longrightarrow>
   None \<notin> set (map2 (\<lambda>n d. if d = (0::complex) then None else Some (g n d)) ns ds)"
  by (induction ns ds rule: list_induct2') auto

text \<open>
  C8: for \<open>f0 > 0\<close> and \<open>gamma > 0\<close> no entry of the denominator array is zero, at any
  real frequency and for either array type, so the division of \<open>LLmodel\<close> never meets a
  zero divisor and every entry of its result is a finite value.
\<close>

theorem LLmodel_no_zero_division:
  assumes "0 < f0" and "0 < gamma"
  shows "0 \<notin> set (LLmodel_den f f0 gamma) \<and> None \<notin> set (LLmodel f muri murf f0 gamma)"
proof -
  have d: "0 \<notin> set (LLmodel_den f f0 gamma)"
    by (rule LLmodel_den_nonzero [OF assms])
  show ?thesis
    unfolding LLmodel_maps using d map2_no_None [OF d] by simp
qed

theorem LLmodel_no_zero_division_witness:
  "(0::real) < 3 \<and> (0::real) < 1 \<and>
   0 \<notin> set (LLmodel_den (Float64 [0, 3]) 3 1) \<and>
   None \<notin> set (LLmodel (Float64 [0, 3]) 20 1 3 1)"
  using LLmodel_no_zero_division [of 3 1 "Float64 [0, 3]" 20 1] by simp

text \<open>
  On an array of doubles every entry is the value of the Landau-Lifshitz formula at its
  frequency.
\<close>

lemma LLmodel_Float64_formula:
  assumes "0 < f0" and "0 < gamma"
  shows "LLmodel (Float64 xs) muri murf f0 gamma =
     map (\<lambda>x. Some (murf + (muri - murf) * (of_real (f0\<^sup>2) + \<i> * of_real x * of_real gamma) /
          (of_real (f0\<^sup>2) + 2 * \<i> * of_real x * of_real gamma - (of_real x)\<^sup>2))) xs"
  unfolding LLmodel_maps LLmodel_num_Float64 LLmodel_den_Float64 map2_map_same
  using LL_den_nonzero_Float64 [OF assms] by simp

lemma LL_values_differ:
  fixes n d1 d2 m c :: complex
  assumes "n \<noteq> 0" and "m \<noteq> 0" and "d1 \<noteq> d2"
  shows "c + m * n / d1 \<noteq> c + m * n / d2"
  using assms by simp

text \<open>
  C2 fails on an integer frequency array. At the \<open>int64\<close> array \<open>[5000000000]\<close> with the
  nickel parameters of the example (\<open>muri = 20\<close>, \<open>murf = 1\<close>, \<open>f0 = 120e9\<close>,
  \<open>gamma = 24e9\<close>) the square \<open>f**2\<close> wraps to \<open>6553255926290448384\<close>, and the
  result differs from the value of the formula, which the same frequency in an array of
  doubles yields.
\<close>

theorem LLmodel_int64_wraps:
  "LLmodel (Int64 [5000000000]) 20 1 120000000000 24000000000 =
     [Some (1 + (20 - 1) * (of_real (120000000000\<^sup>2) + \<i> * 5000000000 * 24000000000) /
        (of_real (120000000000\<^sup>2) + 2 * \<i> * 5000000000 * 24000000000 - 6553255926290448384))] \<and>
   LLmodel (Float64 [5000000000]) 20 1 120000000000 24000000000 =
     [Some (1 + (20 - 1) * (of_real (120000000000\<^sup>2) + \<i> * 5000000000 * 24000000000) /
        (of_real (120000000000\<^sup>2) + 2 * \<i> * 5000000000 * 24000000000 - 5000000000\<^sup>2))] \<and>
   LLmodel (Int64 [5000000000]) 20 1 120000000000 24000000000 \<noteq>
   LLmodel (Float64 [5000000000]) 20 1 120000000000 24000000000"
proof -
  define n :: complex where
    "n = of_real (120000000000\<^sup>2) + \<i> * 5000000000 * 24000000000"
  define d1 :: complex where
    "d1 = of_real (120000000000\<^sup>2) + 2 * \<i> * 5000000000 * 24000000000 - 6553255926290448384"
  define d2 :: complex where
    "d2 = of_real (120000000000\<^sup>2) + 2 * \<i> * 5000000000 * 24000000000 - 5000000000\<^sup>2"
  have sq: "sint ((5000000000 :: 64 word)\<^sup>2) = 6553255926290448384"
    by (simp add: power2_eq_square)
  have s: "sint (5000000000 :: 64 word) = 5000000000"
    by simp
  have d1nz: "d1 \<noteq> 0"
  proof
    assume "d1 = 0"
    then have "Im d1 = 0" by simp
    then show False unfolding d1_def by simp
  qed
  have d2nz: "d2 \<noteq> 0"
  proof
    assume "d2 = 0"
    then have "Im d2 = 0" by simp
    then show False unfolding d2_def by simp
  qed
  have i: "LLmodel (Int64 [5000000000]) 20 1 120000000000 24000000000 = [Some (1 + (20 - 1) * n / d1)]"
    unfolding LLmodel_maps LLmodel_num_Int64 LLmodel_den_Int64 list.map sq s
    using d1nz unfolding n_def d1_def by simp
  have f: "LLmodel (Float64 [5000000000]) 20 1 120000000000 24000000000 = [Some (1 + (20 - 1) * n / d2)]"
    unfolding LLmodel_maps LLmodel_num_Float64 LLmodel_den_Float64 list.map
    using d2nz unfolding n_def d2_def by simp
  have "Re n \<noteq> 0" unfolding n_def by simp
  then have nnz: "n \<noteq> 0" by auto
  have "Re d1 \<noteq> Re d2" unfolding d1_def d2_def by simp
  then have dd: "d1 \<noteq> d2" by auto
  have "1 + (20 - 1) * n / d1 \<noteq> 1 + (20 - 1) * n / d2"
    by (rule LL_values_differ [OF nnz _ dd]) simp
  then have ne: "[Some (1 + (20 - 1) * n / d1)] \<noteq> [Some (1 + (20 - 1) * n / d2)]"
    by simp
  show ?thesis
    using i f ne unfolding n_def d1_def d2_def by (simp only: simp_thms)
qed

text \<open>
  An \<open>int64\<close> array whose squares fit into 63 bits (frequencies below 3037000500 Hz) gives
  the values of the formula as well.
\<close>

lemma sint_square_in_range:
  fixes w :: "64 word"
  assumes "(sint w)\<^sup>2 < 2 ^ 63"
  shows "sint (w\<^sup>2) = (sint w)\<^sup>2"
proof -
  have "sint (w * w) = signed_take_bit 63 (sint w * sint w)"
    using sint_word_mult [of w w] by simp
  also have "\<dots> = sint w * sint w"
  proof (rule signed_take_bit_int_eq_self)
    have "- (2 ^ 63) \<le> (0::int)" by simp
    also have "0 \<le> sint w * sint w" by simp
    finally show "- (2 ^ 63) \<le> sint w * sint w" .
    show "sint w * sint w < 2 ^ 63"
      using assms by (simp add: power2_eq_square)
  qed
  finally show ?thesis by (simp add: power2_eq_square)
qed

lemma LLmodel_Int64_formula:
  assumes "0 < f0" and "0 < gamma" and "\<forall>w \<in> set ws. (sint w)\<^sup>2 < 2 ^ 63"
  shows "LLmodel (Int64 ws) muri murf f0 gamma =
     map (\<lambda>w. Some (murf + (muri - murf) *
            (of_real (f0\<^sup>2) + \<i> * of_int (sint w) * of_real gamma) /
            (of_real (f0\<^sup>2) + 2 * \<i> * of_int (sint w) * of_real gamma - (of_int (sint w))\<^sup>2))) ws"
proof -
  have "of_int (sint (w\<^sup>2)) = ((of_int (sint w))\<^sup>2 :: complex)" if "w \<in> set ws" for w
    using assms(3) that by (simp only: sint_square_in_range of_int_power)
  then show ?thesis
    unfolding LLmodel_maps LLmodel_num_Int64 LLmodel_den_Int64 map2_map_same
    using LL_den_nonzero_Int64 [OF assms(1,2)] by (auto simp del: of_int_power)
qed

section \<open>Properties of default filling\<close>

text \<open>What the inner loop leaves at each key of one dict.\<close>

lemma fill_keys_apply:
  "fill_keys ks dv m k =
     (case m k of
        Some v \<Rightarrow> Some v
      | None \<Rightarrow> if k \<in> set ks then Some (dict_get dv k PyNone) else None)"
proof (induction ks arbitrary: m)
  case Nil
  show ?case by (simp split: option.split)
next
  case (Cons a ks)
  show ?case
    by (cases "m a") (auto simp: Cons.IH split: option.split)
qed

lemma fill_keys_idem: "fill_keys ks dv (fill_keys ks dv m) = fill_keys ks dv m"
  by (rule ext) (simp add: fill_keys_apply split: option.split)

lemma fill_keys_full: "set ks \<subseteq> dom m \<Longrightarrow> fill_keys ks dv m = m"
  by (rule ext) (auto simp: fill_keys_apply split: option.split)

text \<open>
  What the outer loop leaves at each address; a dict listed twice is filled twice, which is
  the same as once.
\<close>

lemma fill_loop_apply:
  "fill_loop ks dv hp rs r = (if r \<in> set rs then fill_keys ks dv (hp r) else hp r)"
proof (induction rs arbitrary: hp)
  case Nil
  show ?case by simp
next
  case (Cons a rs)
  show ?case by (simp add: Cons.IH fill_keys_idem)
qed

text \<open>
  C4: default filling is idempotent. For every key list, default table, store and list of
  layers, filling the result of a first call again returns the same list and leaves the
  store as the first call left it.
\<close>

theorem fill_missing_vals_idempotent:
  "fill_missing_vals ks dv (fst (fill_missing_vals ks dv hp rs)) (snd (fill_missing_vals ks dv hp rs))
     = fill_missing_vals ks dv hp rs"
proof -
  have "fill_loop ks dv (fill_loop ks dv hp rs) rs = fill_loop ks dv hp rs"
    by (rule ext) (simp add: fill_loop_apply fill_keys_idem)
  then show ?thesis by (simp add: fill_missing_vals_def)
qed

text \<open>
  C3, as amended: \<open>fill_missing_vals\<close> works in place. It returns the list it was given
  and writes into each listed dict, for every required key the dict does not have, the value
  \<open>default_values.get(key, None)\<close>. That is its only effect: a dict that is not in the
  list is unchanged; in every dict each key already present and each key that is not
  required keeps its binding; and a layer that has all required keys is unchanged.
\<close>

theorem fill_missing_vals_in_place:
  assumes "fill_missing_vals ks dv hp rs = (hp', rs')"
  shows "rs' = rs \<and>
     (\<forall>r k. r \<in> set rs \<and> k \<in> set ks \<and> hp r k = None \<longrightarrow>
        hp' r k = Some (dict_get dv k PyNone)) \<and>
     (\<forall>r. r \<notin> set rs \<longrightarrow> hp' r = hp r) \<and>
     (\<forall>r k. k \<in> dom (hp r) \<or> k \<notin> set ks \<longrightarrow> hp' r k = hp r k) \<and>
     (\<forall>r. set ks \<subseteq> dom (hp r) \<longrightarrow> hp' r = hp r)"
proof -
  from assms have rs: "rs' = rs" and hp': "hp' = fill_loop ks dv hp rs"
    by (auto simp: fill_missing_vals_def)
  have w: "\<forall>r k. r \<in> set rs \<and> k \<in> set ks \<and> hp r k = None \<longrightarrow>
      hp' r k = Some (dict_get dv k PyNone)"
    by (simp add: hp' fill_loop_apply fill_keys_apply)
  have a: "\<forall>r. r \<notin> set rs \<longrightarrow> hp' r = hp r"
    by (simp add: hp' fill_loop_apply)
  have b: "\<forall>r k. k \<in> dom (hp r) \<or> k \<notin> set ks \<longrightarrow> hp' r k = hp r k"
    by (auto simp: hp' fill_loop_apply fill_keys_apply split: option.split)
  have c: "\<forall>r. set ks \<subseteq> dom (hp r) \<longrightarrow> hp' r = hp r"
    by (simp add: hp' fill_loop_apply fill_keys_full)
  from rs w a b c show ?thesis by blast
qed

theorem fill_missing_vals_in_place_witness:
  "snd (fill_missing_vals required_keys default_values
          (heap_of [[''sigma'' \<mapsto> PyFloat 41000000]]) [0]) = [0] \<and>
   fst (fill_missing_vals required_keys default_values
          (heap_of [[''sigma'' \<mapsto> PyFloat 41000000]]) [0]) 0 ''Rrms'' = Some (PyInt 0) \<and>
   fst (fill_missing_vals required_keys default_values
          (heap_of [[''sigma'' \<mapsto> PyFloat 41000000]]) [0]) 0 ''er'' = Some PyNone \<and>
   fst (fill_missing_vals required_keys default_values
          (heap_of [[''sigma'' \<mapsto> PyFloat 41000000]]) [0]) 1 = Map.empty \<and>
   fst (fill_missing_vals required_keys default_values
          (heap_of [[''sigma'' \<mapsto> PyFloat 41000000]]) [0]) 0 ''sigma'' = Some (PyFloat 41000000) \<and>
   fst (fill_missing_vals required_keys default_values
          (heap_of [[''sigma'' \<mapsto> PyFloat 41000000]]) [0]) 0 ''thickness'' = None"
  using fill_missing_vals_in_place
    [of required_keys default_values "heap_of [[''sigma'' \<mapsto> PyFloat 41000000]]" "[0]"
        "fst (fill_missing_vals required_keys default_values
                (heap_of [[''sigma'' \<mapsto> PyFloat 41000000]]) [0])"
        "snd (fill_missing_vals required_keys default_values
                (heap_of [[''sigma'' \<mapsto> PyFloat 41000000]]) [0])"]
  by (simp add: heap_of_def required_keys_def default_values_def dict_get_def)

text \<open>
  C3 as stated fails: the caller's layer \<open>{'sigma': 41e6}\<close> has no key \<open>mur\<close> before
  the call, and the same object has it afterwards.
\<close>

theorem fill_missing_vals_mutates_counterexample:
  "heap_of [[''sigma'' \<mapsto> PyFloat 41000000]] 0 ''mur'' = None \<and>
   fst (fill_missing_vals required_keys default_values
          (heap_of [[''sigma'' \<mapsto> PyFloat 41000000]]) [0]) 0 ''mur'' = Some (PyComplex 1)"
  by (simp add: fill_missing_vals_def heap_of_def required_keys_def default_values_def dict_get_def)

text \<open>
  C5: with the key list and default table of \<open>run_simulation\<close>, every layer in the list
  keeps each binding it had, and a layer without \<open>sigma\<close>, \<open>mur\<close>, \<open>Rrms\<close>,
  \<open>boundary_loc\<close> or \<open>distribution\<close> gets the table default for it: 58e6, 1, 0, 0 and
  \<open>'norm'\<close>.
\<close>

theorem fill_missing_vals_defaults:
  assumes "r \<in> set rs"
    and "fill_missing_vals required_keys default_values hp rs = (hp', rs')"
  shows "(\<forall>k v. hp r k = Some v \<longrightarrow> hp' r k = Some v) \<and>
     (hp r ''sigma'' = None \<longrightarrow> hp' r ''sigma'' = Some (PyFloat 58000000)) \<and>
     (hp r ''mur'' = None \<longrightarrow> hp' r ''mur'' = Some (PyComplex 1)) \<and>
     (hp r ''Rrms'' = None \<longrightarrow> hp' r ''Rrms'' = Some (PyInt 0)) \<and>
     (hp r ''boundary_loc'' = None \<longrightarrow> hp' r ''boundary_loc'' = Some (PyInt 0)) \<and>
     (hp r ''distribution'' = None \<longrightarrow> hp' r ''distribution'' = Some (PyStr ''norm''))"
proof -
  from assms have hp': "hp' r = fill_keys required_keys default_values (hp r)"
    by (auto simp: fill_missing_vals_def fill_loop_apply)
  show ?thesis
    unfolding hp' fill_keys_apply
    by (simp add: required_keys_def default_values_def dict_get_def)
qed

theorem fill_missing_vals_defaults_witness:
  "(0::nat) \<in> set [0] \<and>
   fst (fill_missing_vals required_keys default_values
          (heap_of [[''sigma'' \<mapsto> PyFloat 41000000]]) [0]) 0 ''sigma'' = Some (PyFloat 41000000) \<and>
   fst (fill_missing_vals required_keys default_values
          (heap_of [[''sigma'' \<mapsto> PyFloat 41000000]]) [0]) 0 ''mur'' = Some (PyComplex 1) \<and>
   fst (fill_missing_vals required_keys default_values
          (heap_of [[''sigma'' \<mapsto> PyFloat 41000000]]) [0]) 0 ''distribution'' = Some (PyStr ''norm'')"
  using fill_missing_vals_defaults
    [of 0 "[0]" "heap_of [[''sigma'' \<mapsto> PyFloat 41000000]]"
        "fst (fill_missing_vals required_keys default_values
                (heap_of [[''sigma'' \<mapsto> PyFloat 41000000]]) [0])"
        "snd (fill_missing_vals required_keys default_values
                (heap_of [[''sigma'' \<mapsto> PyFloat 41000000]]) [0])"]
  by (simp add: heap_of_def)

section \<open>Properties of the constructor\<close>

lemma map2_mult_ones:
  "length xs = n \<Longrightarrow> map2 (\<lambda>x y. x * y) xs (replicate n (1::real)) = xs"
proof (induction xs arbitrary: n)
  case Nil
  then show ?case by simp
next
  case (Cons a xs)
  then obtain m where "n = Suc m" and "length xs = m" by (cases n) auto
  with Cons.IH show ?case by simp
qed

text \<open>The product of a parameter with \<open>np.ones_like(self.f)\<close>, case by case.\<close>

lemma np_mul_ones:
  "np_mul p (ones_like fa) =
     (case p of
        Scalar c \<Rightarrow> Inr (replicate (length fa) c)
      | Array xs \<Rightarrow>
          if length xs = length fa then Inr xs
          else if length xs = 1 then Inr (replicate (length fa) (hd xs))
          else if length fa = 1 then Inr xs
          else Inl ValueError)"
proof (cases p)
  case (Scalar c)
  then show ?thesis by (simp add: np_mul_def ones_like_def map_replicate)
next
  case (Array xs)
  have one: "length fa = 1 \<Longrightarrow> map (\<lambda>x. x * hd (replicate (length fa) (1::real))) xs = xs"
    by simp
  show ?thesis
    unfolding Array np_mul_def ones_like_def
    by (simp add: map2_mult_ones map_replicate one)
qed

lemma replicate_one: "Suc 0 = n \<Longrightarrow> replicate n x = [x]"
  by auto

lemma np_mul_ones_fit:
  assumes "\<forall>xs. p = Array xs \<longrightarrow> length xs = 1 \<or> length xs = length fa"
  shows "\<exists>s. np_mul p (ones_like fa) = Inr s \<and> length s = length fa \<and>
     (\<forall>c. p = Scalar c \<longrightarrow> s = replicate (length fa) c) \<and>
     (\<forall>x. p = Array [x] \<longrightarrow> s = replicate (length fa) x) \<and>
     (\<forall>xs. p = Array xs \<and> length xs = length fa \<longrightarrow> s = xs)"
proof (cases p)
  case (Scalar c)
  then show ?thesis by (simp add: np_mul_ones)
next
  case (Array xs)
  with assms have "length xs = 1 \<or> length xs = length fa" by simp
  then show ?thesis
  proof
    assume l: "length xs = length fa"
    have "\<And>x. xs = [x] \<Longrightarrow> xs = replicate (length fa) x"
      using l by (metis length_Cons list.size(3) replicate.simps(1,2) One_nat_def)
    then show ?thesis using Array l by (simp add: np_mul_ones)
  next
    assume l: "length xs = 1"
    then obtain x where "xs = [x]" by (cases xs) auto
    then show ?thesis using Array by (auto simp: np_mul_ones replicate_one)
  qed
qed

text \<open>
  C9, as amended: when each of \<open>er\<close>, \<open>etand\<close>, \<open>mur\<close>, \<open>mutand\<close> is a number, an
  array of one element, or an array with as many elements as the frequency grid, the
  constructor succeeds and each stored array has the length and the index order of
  \<open>self.f\<close>: an array of full length is stored element for element, a number or a single
  element is repeated at every frequency point.
\<close>

theorem HFSSMS_init_lengths:
  assumes "\<forall>p \<in> set [er, etand, mur, mutand].
             \<forall>xs. p = Array xs \<longrightarrow> length xs = 1 \<or> length xs = length (atleast_1d f)"
  shows "\<exists>obj. HFSSMS_init f w h t wgnd er etand mur mutand cgt csb css cst pec = Inr obj \<and>
     self_f obj = atleast_1d f \<and>
     length (self_er obj) = length (self_f obj) \<and>
     length (self_etand obj) = length (self_f obj) \<and>
     length (self_mur obj) = length (self_f obj) \<and>
     length (self_mutand obj) = length (self_f obj) \<and>
     (\<forall>xs. er = Array xs \<and> length xs = length (self_f obj) \<longrightarrow> self_er obj = xs) \<and>
     (\<forall>xs. etand = Array xs \<and> length xs = length (self_f obj) \<longrightarrow> self_etand obj = xs) \<and>
     (\<forall>xs. mur = Array xs \<and> length xs = length (self_f obj) \<longrightarrow> self_mur obj = xs) \<and>
     (\<forall>xs. mutand = Array xs \<and> length xs = length (self_f obj) \<longrightarrow> self_mutand obj = xs) \<and>
     (\<forall>c. er = Scalar c \<or> er = Array [c] \<longrightarrow> self_er obj = replicate (length (self_f obj)) c) \<and>
     (\<forall>c. etand = Scalar c \<or> etand = Array [c] \<longrightarrow>
        self_etand obj = replicate (length (self_f obj)) c) \<and>
     (\<forall>c. mur = Scalar c \<or> mur = Array [c] \<longrightarrow> self_mur obj = replicate (length (self_f obj)) c) \<and>
     (\<forall>c. mutand = Scalar c \<or> mutand = Array [c] \<longrightarrow>
        self_mutand obj = replicate (length (self_f obj)) c)"
proof -
  define fa where "fa = atleast_1d f"
  have fit: "\<forall>xs. p = Array xs \<longrightarrow> length xs = 1 \<or> length xs = length fa"
    if "p \<in> set [er, etand, mur, mutand]" for p
    using assms that unfolding fa_def by blast
  obtain s1 where s1: "np_mul er (ones_like fa) = Inr s1" "length s1 = length fa"
      "\<forall>c. er = Scalar c \<longrightarrow> s1 = replicate (length fa) c"
      "\<forall>x. er = Array [x] \<longrightarrow> s1 = replicate (length fa) x"
      "\<forall>xs. er = Array xs \<and> length xs = length fa \<longrightarrow> s1 = xs"
    using np_mul_ones_fit [OF fit [of er]] by auto
  obtain s2 where s2: "np_mul etand (ones_like fa) = Inr s2" "length s2 = length fa"
      "\<forall>c. etand = Scalar c \<longrightarrow> s2 = replicate (length fa) c"
      "\<forall>x. etand = Array [x] \<longrightarrow> s2 = replicate (length fa) x"
      "\<forall>xs. etand = Array xs \<and> length xs = length fa \<longrightarrow> s2 = xs"
    using np_mul_ones_fit [OF fit [of etand]] by auto
  obtain s3 where s3: "np_mul mur (ones_like fa) = Inr s3" "length s3 = length fa"
      "\<forall>c. mur = Scalar c \<longrightarrow> s3 = replicate (length fa) c"
      "\<forall>x. mur = Array [x] \<longrightarrow> s3 = replicate (length fa) x"
      "\<forall>xs. mur = Array xs \<and> length xs = length fa \<longrightarrow> s3 = xs"
    using np_mul_ones_fit [OF fit [of mur]] by auto
  obtain s4 where s4: "np_mul mutand (ones_like fa) = Inr s4" "length s4 = length fa"
      "\<forall>c. mutand = Scalar c \<longrightarrow> s4 = replicate (length fa) c"
      "\<forall>x. mutand = Array [x] \<longrightarrow> s4 = replicate (length fa) x"
      "\<forall>xs. mutand = Array xs \<and> length xs = length fa \<longrightarrow> s4 = xs"
    using np_mul_ones_fit [OF fit [of mutand]] by auto
  have init: "HFSSMS_init f w h t wgnd er etand mur mutand cgt csb css cst pec =
      Inr \<lparr>self_f = fa, self_w = w, self_h = h, self_t = t, self_wgnd = wgnd,
           self_er = s1, self_etand = s2, self_mur = s3, self_mutand = s4,
           self_conductor_gnd_top = cgt, self_conductor_sig_bottom = csb,
           self_conductor_sig_side = css, self_conductor_sig_top = cst,
           self_use_pec = pec\<rparr>"
    unfolding HFSSMS_init_def fa_def [symmetric] Let_def
    by (simp add: s1(1) s2(1) s3(1) s4(1))
  show ?thesis
    unfolding init fa_def [symmetric]
    using s1(2-) s2(2-) s3(2-) s4(2-) by simp
qed

theorem HFSSMS_init_lengths_witness:
  "\<exists>obj. HFSSMS_init (Array [1000000000, 2000000000]) 0.000284 0.000127 0.00002 0.005
            (Scalar 2.91) (Array [0.0017]) (Array [1, 1]) (Scalar 0)
            None None None None False = Inr obj \<and>
     self_f obj = [1000000000, 2000000000] \<and>
     self_er obj = [2.91, 2.91] \<and> self_etand obj = [0.0017, 0.0017] \<and>
     self_mur obj = [1, 1] \<and> length (self_mutand obj) = 2"
proof -
  have fit: "\<forall>p \<in> set [Scalar 2.91, Array [0.0017], Array [1, 1], Scalar 0].
      \<forall>xs. p = Array xs \<longrightarrow>
        length xs = 1 \<or> length xs = length (atleast_1d (Array [1000000000, 2000000000]))"
    by (simp add: atleast_1d_def)
  from HFSSMS_init_lengths [OF fit, of "0.000284" "0.000127" "0.00002" "0.005" None None None None False]
  obtain obj where
    "HFSSMS_init (Array [1000000000, 2000000000]) 0.000284 0.000127 0.00002 0.005
       (Scalar 2.91) (Array [0.0017]) (Array [1, 1]) (Scalar 0)
       None None None None False = Inr obj"
    "self_f obj = [1000000000, 2000000000]"
    "self_er obj = [2.91, 2.91]" "self_etand obj = [0.0017, 0.0017]"
    "self_mur obj = [1, 1]" "length (self_mutand obj) = 2"
    by (auto simp: atleast_1d_def numeral_2_eq_2)
  then show ?thesis by blast
qed

text \<open>
  C9 as stated fails: a scalar frequency with a two-element \<open>er\<close> is accepted, and the
  object then holds one frequency point and two permittivity values.
\<close>

theorem HFSSMS_init_lengths_counterexample:
  "\<not> isl (HFSSMS_init (Scalar 1000000000) 0.000284 0.000127 0.00002 0.005
            (Array [2.91, 3]) (Scalar 0) (Scalar 1) (Scalar 0)
            None None None None False) \<and>
   self_f (projr (HFSSMS_init (Scalar 1000000000) 0.000284 0.000127 0.00002 0.005
            (Array [2.91, 3]) (Scalar 0) (Scalar 1) (Scalar 0)
            None None None None False)) = [1000000000] \<and>
   self_er (projr (HFSSMS_init (Scalar 1000000000) 0.000284 0.000127 0.00002 0.005
            (Array [2.91, 3]) (Scalar 0) (Scalar 1) (Scalar 0)
            None None None None False)) = [2.91, 3]"
  by (simp add: HFSSMS_init_def np_mul_def ones_like_def atleast_1d_def)

end
